theory Spec2Isabelle
  imports Main
begin

section \<open>Strings of the Python program\<close>

text \<open>
  A Python \<open>str\<close> is modelled as a \<^typ>\<open>string\<close>.  The character classes that the program
  consults through \<open>str.split\<close>, \<open>str.strip\<close>, \<open>str.upper\<close>, \<open>str.lower\<close> and the
  regular-expression classes \<open>\s\<close> and \<open>\w\<close> are the ones Python uses on ASCII text:
  whitespace is the code points 9 to 13 and 28 to 32, a word character is a digit, a
  letter or the underscore, and only the letters \<open>a\<close> to \<open>z\<close> (\<open>A\<close> to \<open>Z\<close>) change under
  \<open>upper\<close> (\<open>lower\<close>).  Characters beyond ASCII are carried through unchanged and belong
  to no class; the literal messages of the program that contain such characters are
  written as their UTF-8 bytes.
\<close>

definition is_space :: "char \<Rightarrow> bool" where
  "is_space c = (let n = (of_char c :: nat) in (9 \<le> n \<and> n \<le> 13) \<or> (28 \<le> n \<and> n \<le> 32))"

definition is_digit :: "char \<Rightarrow> bool" where
  "is_digit c = (let n = (of_char c :: nat) in 48 \<le> n \<and> n \<le> 57)"

definition is_word :: "char \<Rightarrow> bool" where
  "is_word c = (let n = (of_char c :: nat) in
     (48 \<le> n \<and> n \<le> 57) \<or> (65 \<le> n \<and> n \<le> 90) \<or> n = 95 \<or> (97 \<le> n \<and> n \<le> 122))"

definition upper_char :: "char \<Rightarrow> char" where
  "upper_char c =
     (let n = (of_char c :: nat) in if 97 \<le> n \<and> n \<le> 122 then char_of (n - 32) else c)"

definition lower_char :: "char \<Rightarrow> char" where
  "lower_char c =
     (let n = (of_char c :: nat) in if 65 \<le> n \<and> n \<le> 90 then char_of (n + 32) else c)"

definition upper :: "string \<Rightarrow> string" where
  "upper s = map upper_char s"

definition lower :: "string \<Rightarrow> string" where
  "lower s = map lower_char s"

text \<open>\<open>s.strip()\<close>: leading and trailing whitespace removed.\<close>

definition strip :: "string \<Rightarrow> string" where
  "strip s = rev (dropWhile is_space (rev (dropWhile is_space s)))"

text \<open>\<open>s.split()\<close>: the maximal runs of non-whitespace characters, in order.\<close>

function split_ws :: "string \<Rightarrow> string list" where
  "split_ws [] = []"
| "split_ws (c # s) =
     (if is_space c then split_ws s
      else (c # takeWhile (\<lambda>x. \<not> is_space x) s) #
           split_ws (dropWhile (\<lambda>x. \<not> is_space x) s))"
  by pat_completeness auto
termination
  by (relation "measure length")
     (auto simp: less_Suc_eq_le intro: le_trans [OF length_dropWhile_le])

text \<open>\<open>sep.join(ws)\<close>.\<close>

fun join :: "string \<Rightarrow> string list \<Rightarrow> string" where
  "join sep [] = []"
| "join sep [w] = w"
| "join sep (w # v # ws) = w @ sep @ join sep (v # ws)"

text \<open>\<open>s.startswith(k)\<close> and \<open>k in s\<close>.\<close>

fun startswith :: "string \<Rightarrow> string \<Rightarrow> bool" where
  "startswith s [] = True"
| "startswith [] (k # ks) = False"
| "startswith (c # s) (k # ks) = (c = k \<and> startswith s ks)"

fun contains :: "string \<Rightarrow> string \<Rightarrow> bool" where
  "contains k [] = (k = [])"
| "contains k (c # s) = (startswith (c # s) k \<or> contains k s)"

section \<open>The query gate\<close>

subsection \<open>Comment removal\<close>

text \<open>
  \<open>re.sub(r'--.*$', '', query, flags=re.MULTILINE)\<close>: scanning from the left, every \<open>--\<close>
  is deleted together with the rest of its line.  Without \<open>DOTALL\<close> the dot stops at the
  line feed, where \<open>$\<close> matches under \<open>MULTILINE\<close>; the line feed itself stays.
\<close>

function strip_line_comments :: "string \<Rightarrow> string" where
  "strip_line_comments [] = []"
| "strip_line_comments [c] = [c]"
| "strip_line_comments (c # d # s) =
     (if c = CHR ''-'' \<and> d = CHR ''-''
      then strip_line_comments (dropWhile (\<lambda>x. x \<noteq> CHR 0x0A) s)
      else c # strip_line_comments (d # s))"
  by pat_completeness auto
termination
  by (relation "measure length")
     (auto simp: less_Suc_eq_le intro: le_trans [OF length_dropWhile_le])

text \<open>
  \<open>re.sub(r'/\*.*?\*/', '', query_clean, flags=re.DOTALL)\<close>: an opening \<open>/*\<close> is deleted
  up to and including the first \<open>*/\<close> that begins after it; \<open>find_close\<close> returns the text
  behind that \<open>*/\<close>.  An opening \<open>/*\<close> that is never closed is no match and stays.
\<close>

fun find_close :: "string \<Rightarrow> string option" where
  "find_close [] = None"
| "find_close [c] = None"
| "find_close (c # d # s) =
     (if c = CHR ''*'' \<and> d = CHR ''/'' then Some s else find_close (d # s))"

lemma find_close_length: "find_close s = Some r \<Longrightarrow> length r < length s"
  by (induction s arbitrary: r rule: find_close.induct) (auto split: if_splits)

function strip_block_comments :: "string \<Rightarrow> string" where
  "strip_block_comments [] = []"
| "strip_block_comments [c] = [c]"
| "strip_block_comments (c # d # s) =
     (if c = CHR ''/'' \<and> d = CHR ''*''
      then (case find_close s of
              Some r \<Rightarrow> strip_block_comments r
            | None \<Rightarrow> c # strip_block_comments (d # s))
      else c # strip_block_comments (d # s))"
  by pat_completeness auto
termination
  by (relation "measure length") (auto dest: find_close_length)

subsection \<open>The forbidden patterns\<close>

text \<open>
  The ten patterns use five constructs: the word boundary \<open>\b\<close>, a literal, \<open>\s+\<close>, \<open>\w+\<close>
  and an alternative of literals.  \<open>rx_match r p s\<close> holds when \<open>r\<close> matches some prefix of
  \<open>s\<close>, where \<open>p\<close> is the character before \<open>s\<close> in the searched text (\<open>None\<close> at its
  start); the two branches of a repetition are the backtracking of the matcher.
\<close>

datatype rx = Bnd | Lit string | Ws1 | Wd1 | Alt "string list"

definition word_opt :: "char option \<Rightarrow> bool" where
  "word_opt p = (case p of None \<Rightarrow> False | Some c \<Rightarrow> is_word c)"

definition after_lit :: "char option \<Rightarrow> string \<Rightarrow> char option" where
  "after_lit p l = (if l = [] then p else Some (last l))"

function rx_match :: "rx list \<Rightarrow> char option \<Rightarrow> string \<Rightarrow> bool" where
  "rx_match [] p s = True"
| "rx_match (Bnd # r) p s =
     (word_opt p \<noteq> (case s of [] \<Rightarrow> False | c # _ \<Rightarrow> is_word c) \<and> rx_match r p s)"
| "rx_match (Lit l # r) p s =
     (startswith s l \<and> rx_match r (after_lit p l) (drop (length l) s))"
| "rx_match (Alt ls # r) p s =
     list_ex (\<lambda>l. startswith s l \<and> rx_match r (after_lit p l) (drop (length l) s)) ls"
| "rx_match (Ws1 # r) p [] = False"
| "rx_match (Ws1 # r) p (c # s) =
     (is_space c \<and> (rx_match (Ws1 # r) (Some c) s \<or> rx_match r (Some c) s))"
| "rx_match (Wd1 # r) p [] = False"
| "rx_match (Wd1 # r) p (c # s) =
     (is_word c \<and> (rx_match (Wd1 # r) (Some c) s \<or> rx_match r (Some c) s))"
  by pat_completeness auto
termination
  by (relation "measure (\<lambda>(r, p, s). length r + 2 * length s)") auto

text \<open>\<open>re.search(pattern, s)\<close> as a truth value: the pattern matches at some position.\<close>

fun search_from :: "rx list \<Rightarrow> char option \<Rightarrow> string \<Rightarrow> bool" where
  "search_from r p [] = rx_match r p []"
| "search_from r p (c # s) = (rx_match r p (c # s) \<or> search_from r (Some c) s)"

definition re_search :: "rx list \<Rightarrow> string \<Rightarrow> bool" where
  "re_search r s = search_from r None s"

definition forbidden_patterns :: "rx list list" where
  "forbidden_patterns =
     [[Bnd, Lit ''INSERT'', Ws1, Lit ''INTO'', Bnd],
      [Bnd, Lit ''UPDATE'', Ws1, Wd1, Ws1, Lit ''SET'', Bnd],
      [Bnd, Lit ''DELETE'', Ws1, Lit ''FROM'', Bnd],
      [Bnd, Lit ''CREATE'', Ws1, Alt [''TABLE'', ''VIEW'', ''SCHEMA'', ''DATABASE''], Bnd],
      [Bnd, Lit ''DROP'', Ws1, Alt [''TABLE'', ''VIEW'', ''SCHEMA'', ''DATABASE''], Bnd],
      [Bnd, Lit ''ALTER'', Ws1, Alt [''TABLE'', ''VIEW'', ''SCHEMA'', ''DATABASE''], Bnd],
      [Bnd, Lit ''MERGE'', Ws1, Lit ''INTO'', Bnd],
      [Bnd, Lit ''TRUNCATE'', Ws1, Lit ''TABLE'', Bnd],
      [Bnd, Lit ''GRANT'', Ws1, Wd1, Ws1, Lit ''ON'', Bnd],
      [Bnd, Lit ''REVOKE'', Ws1, Wd1, Ws1, Lit ''ON'', Bnd]]"

definition allowed_starts :: "string list" where
  "allowed_starts =
     [''SELECT'', ''WITH'', ''SHOW'', ''DESCRIBE'', ''DESC'', ''EXPLAIN'', ''VALUES'']"

subsection \<open>validate_query\<close>

text \<open>
  \<open>re.sub(r'^\s*\(+\s*', '', s)\<close>: anchored at the start of the text, so there is at most
  one match; it needs at least one parenthesis, and all three repetitions are greedy.
\<close>

definition sub_leading_parens :: "string \<Rightarrow> string" where
  "sub_leading_parens s =
     (let a = dropWhile is_space s in
      if startswith a ''(''
      then dropWhile is_space (dropWhile (\<lambda>c. c = CHR ''('') a)
      else s)"

text \<open>The value of the variable \<open>query_upper\<close>.\<close>

definition query_upper :: "string \<Rightarrow> string" where
  "query_upper query =
     upper (join '' '' (split_ws (strip_block_comments (strip_line_comments query))))"

definition validate_query :: "string \<Rightarrow> bool" where
  "validate_query query =
     (let qu = query_upper query in
      if list_ex (\<lambda>pattern. re_search pattern qu) forbidden_patterns then False
      else
        let query_trimmed = strip qu in
        if startswith query_trimmed ''(''
        then (let inner_query = sub_leading_parens query_trimmed in
              if \<not> list_ex (\<lambda>keyword. startswith inner_query keyword) allowed_starts
              then False else True)
        else if \<not> list_ex (\<lambda>keyword. startswith query_trimmed keyword) allowed_starts
        then False else True)"

subsection \<open>The normal form in the words of the specification\<close>

text \<open>
  The specification describes the text that is matched as the query with its SQL line
  comments (\<open>--\<close> to the end of the line) and block comments (\<open>/* ... */\<close>, non-greedy,
  spanning lines) stripped, its runs of whitespace collapsed to single blanks, trimmed
  and uppercased.  The definitions of this subsection follow these words; they use none
  of the program's comment removal and none of its handling of parentheses.

  Comments are read as SQL reads them, in one pass from left to right.  Outside a
  comment, \<open>--\<close> opens a line comment, which ends before the next line feed, and \<open>/*\<close>
  opens a block comment, which ends behind the next \<open>*/\<close>, on whichever line that is.
  Inside a comment the marker of the other kind is part of the comment.  A \<open>/*\<close> with no
  \<open>*/\<close> behind it opens no comment.
\<close>

datatype scan_mode = Outside | In_line | In_block

fun spec_scan :: "scan_mode \<Rightarrow> string \<Rightarrow> string" where
  "spec_scan Outside [] = []"
| "spec_scan Outside [c] = [c]"
| "spec_scan Outside (c # d # s) =
     (if c = CHR ''-'' \<and> d = CHR ''-'' then spec_scan In_line s
      else if c = CHR ''/'' \<and> d = CHR ''*'' \<and> contains ''*/'' s then spec_scan In_block s
      else c # spec_scan Outside (d # s))"
| "spec_scan In_line [] = []"
| "spec_scan In_line (c # s) =
     (if c = CHR 0x0A then c # spec_scan Outside s else spec_scan In_line s)"
| "spec_scan In_block [] = []"
| "spec_scan In_block [c] = []"
| "spec_scan In_block (c # d # s) =
     (if c = CHR ''*'' \<and> d = CHR ''/'' then spec_scan Outside s else spec_scan In_block (d # s))"

definition spec_strip_comments :: "string \<Rightarrow> string" where
  "spec_strip_comments query = spec_scan Outside query"

text \<open>
  Runs of whitespace collapsed to single blanks.  \<open>lead\<close> is the blank that collapsing
  leaves at the start of a text that begins with whitespace.
\<close>

function collapse_ws :: "string \<Rightarrow> string" where
  "collapse_ws [] = []"
| "collapse_ws (c # s) =
     (if is_space c then CHR '' '' # collapse_ws (dropWhile is_space s)
      else c # collapse_ws s)"
  by pat_completeness auto
termination
  by (relation "measure length")
     (auto simp: less_Suc_eq_le intro: le_trans [OF length_dropWhile_le])

definition lead :: "string \<Rightarrow> string" where
  "lead s = (if s \<noteq> [] \<and> is_space (hd s) then '' '' else [])"

definition normalized :: "string \<Rightarrow> string" where
  "normalized query = upper (strip (collapse_ws (spec_strip_comments query)))"

text \<open>
  For a text that begins with one or more opening parentheses the specification checks
  the allow-list against the remainder, which is the text with its leading parentheses
  and whitespace stripped.
\<close>

definition spec_remainder :: "string \<Rightarrow> string" where
  "spec_remainder s = dropWhile (\<lambda>c. c = CHR ''('' \<or> is_space c) s"

section \<open>Configuration, engine and effects\<close>

text \<open>
  The module-level settings read from the environment at start-up.  \<open>TRINO_PASSWORD\<close> is
  \<open>None\<close> when the variable is unset.
\<close>

record config =
  TRINO_HOST :: string
  TRINO_PORT :: int
  TRINO_USER :: string
  TRINO_PASSWORD :: "string option"
  TRINO_USE_HTTPS :: bool
  TRINO_CATALOG :: string
  TRINO_SCHEMA :: string

text \<open>An exception: the name of its type and its text (\<open>str(e)\<close>).\<close>

datatype exn = Exn (exn_type: string) (exn_msg: string)

text \<open>
  The keyword arguments of \<open>trino.dbapi.connect\<close>; \<open>conn_auth\<close> holds the user and
  password of a \<open>BasicAuthentication\<close>.
\<close>

record connect_args =
  conn_host :: string
  conn_port :: int
  conn_user :: string
  conn_auth :: "(string \<times> string) option"
  conn_http_scheme :: string
  conn_catalog :: string
  conn_schema :: string

text \<open>
  A cursor after \<open>execute\<close>: its column names (\<open>None\<close> when \<open>cursor.description\<close> is
  \<open>None\<close>) and what \<open>fetchmany\<close> returns or raises for a given size.
\<close>

record cursor =
  description :: "string list option"
  fetchmany :: "int \<Rightarrow> exn + string list list"

text \<open>
  What lies outside the program: for each call into the engine client whether it raises
  (and for \<open>execute\<close> the cursor it leaves), the table renderer (\<open>pandas\<close> and \<open>tabulate\<close>),
  and the interpreter's limit on the digits of an integer literal (\<open>0\<close> for no limit).
\<close>

record env =
  connect :: "connect_args \<Rightarrow> exn option"
  cursor_open :: "exn option"
  execute :: "string \<Rightarrow> exn + cursor"
  cursor_close :: "exn option"
  conn_close :: "exn option"
  tabulate :: "string list \<Rightarrow> string list list \<Rightarrow> exn + string"
  int_max_str_digits :: nat

text \<open>The calls made into the engine client, in order.\<close>

datatype event =
  Connect connect_args | Cursor | Execute string | FetchMany int | CursorClose | ConnClose

section \<open>Integers and text\<close>

definition digit_char :: "nat \<Rightarrow> char" where
  "digit_char n = char_of (48 + n)"

function str_of_nat :: "nat \<Rightarrow> string" where
  "str_of_nat n =
     (if n < 10 then [digit_char n] else str_of_nat (n div 10) @ [digit_char (n mod 10)])"
  by pat_completeness auto
termination
  by (relation "measure id") auto

text \<open>The text of an integer in an f-string.\<close>

definition str_of_int :: "int \<Rightarrow> string" where
  "str_of_int i = (if i < 0 then CHR ''-'' # str_of_nat (nat (- i)) else str_of_nat (nat i))"

text \<open>
  \<open>int(s)\<close> on a string: whitespace of the C locale (code points 9 to 13 and 32) is
  removed at both ends, one sign may follow, then decimal digits, where single
  underscores may stand between digits.  \<open>None\<close> is \<open>ValueError\<close>, which is also raised
  when the digits outnumber the interpreter's limit.
\<close>

definition c_isspace :: "char \<Rightarrow> bool" where
  "c_isspace c = (let n = (of_char c :: nat) in (9 \<le> n \<and> n \<le> 13) \<or> n = 32)"

definition digit_val :: "char \<Rightarrow> nat" where
  "digit_val c = of_char c - 48"

fun parse_digits_acc :: "nat \<Rightarrow> string \<Rightarrow> nat option" where
  "parse_digits_acc acc [] = Some acc"
| "parse_digits_acc acc (c # s) =
     (if is_digit c then parse_digits_acc (10 * acc + digit_val c) s
      else if c = CHR ''_'' \<and> s \<noteq> [] \<and> is_digit (hd s) then parse_digits_acc acc s
      else None)"

definition parse_digits :: "string \<Rightarrow> nat option" where
  "parse_digits s = (if s \<noteq> [] \<and> is_digit (hd s) then parse_digits_acc 0 s else None)"

definition py_int :: "nat \<Rightarrow> string \<Rightarrow> int option" where
  "py_int max_digits s =
     (let t = rev (dropWhile c_isspace (rev (dropWhile c_isspace s)));
          neg = startswith t ''-'';
          body = (if startswith t ''-'' \<or> startswith t ''+'' then tl t else t)
      in if 0 < max_digits \<and> max_digits < length (filter is_digit body) then None
         else case parse_digits body of
                None \<Rightarrow> None
              | Some n \<Rightarrow> Some (if neg then - int n else int n))"

section \<open>Utility functions\<close>

definition nl :: string where
  "nl = [CHR 0x0A]"

text \<open>The markers that open the messages, as the UTF-8 bytes of the source text.\<close>

definition cross_mark :: string where
  "cross_mark = [CHR 0xE2, CHR 0x80, CHR 0x9A, CHR 0xC3, CHR 0xB9, CHR 0xC3, CHR 0xA5]"

definition check_mark :: string where
  "check_mark = [CHR 0xE2, CHR 0x80, CHR 0x9A, CHR 0xC3, CHR 0xBA, CHR 0xC3, CHR 0x96]"

definition format_error_message :: "config \<Rightarrow> exn \<Rightarrow> string \<Rightarrow> string" where
  "format_error_message cfg error context_text =
     (let error_msg = exn_msg error;
          error_type = exn_type error;
          low = lower error_msg;
          port = str_of_int (TRINO_PORT cfg)
      in
      if contains ''connection'' low \<or> contains ''connect'' low then
        join nl
          [cross_mark @ '' Connection Error: Cannot connect to Trino server'',
           [],
           ''Details: '' @ error_msg,
           [],
           ''Troubleshooting:'',
           ''1. Verify Trino server is running:'',
           ''   curl http://'' @ TRINO_HOST cfg @ '':'' @ port @ ''/v1/info'',
           [],
           ''2. Check environment variables:'',
           ''   - TRINO_HOST='' @ TRINO_HOST cfg,
           ''   - TRINO_PORT='' @ port,
           ''   - TRINO_USER='' @ TRINO_USER cfg,
           [],
           ''3. For remote servers, ensure SSH tunnel is active (if required)'',
           [],
           ''4. For Docker, verify network configuration:'',
           ''   - Use 'host.docker.internal' for localhost connections'',
           ''   - On Linux, add: --add-host=host.docker.internal:host-gateway'',
           ''   - Check Docker network mode settings'',
           [],
           ''5. Check firewall rules and network connectivity'']
      else if contains ''authentication'' low \<or> contains ''unauthorized'' low then
        join nl
          [cross_mark @ '' Authentication Error: Failed to authenticate with Trino'',
           [],
           ''Details: '' @ error_msg,
           [],
           ''Troubleshooting:'',
           ''1. Verify TRINO_USER is correct: '' @ TRINO_USER cfg,
           ''2. If using password authentication, check TRINO_PASSWORD is set correctly'',
           ''3. Verify user has read permissions on catalog: '' @ TRINO_CATALOG cfg,
           ''4. Check Trino server authentication configuration'']
      else if contains ''syntax'' low \<or> contains ''parse'' low then
        join nl
          [cross_mark @ '' Query Error: SQL syntax or parsing error'',
           [],
           ''Details: '' @ error_msg,
           [],
           ''Troubleshooting:'',
           ''1. Check SQL syntax for Trino-specific requirements'',
           ''2. Verify table/schema/catalog names are correct'',
           ''3. Ensure proper quoting for identifiers with special characters'',
           ''4. Check Trino SQL documentation for supported syntax'']
      else
        join nl
          [cross_mark @ '' Error: '' @ error_type,
           [],
           ''Details: '' @ error_msg,
           [],
           ''Context: '' @ (if context_text \<noteq> [] then context_text else ''No additional context''),
           [],
           ''For more help, check:'',
           ''- Trino server logs'',
           ''- Network connectivity'',
           ''- Environment variable configuration''])"

text \<open>
  The arguments that \<open>get_trino_connection\<close> passes to \<open>trino.dbapi.connect\<close>.  A password
  that is unset or empty gives no authentication.
\<close>

definition connection_args :: "config \<Rightarrow> connect_args" where
  "connection_args cfg =
     (let host = (if TRINO_HOST cfg \<noteq> ''localhost'' then TRINO_HOST cfg
                  else ''host.docker.internal'');
          auth = (case TRINO_PASSWORD cfg of
                    None \<Rightarrow> None
                  | Some pw \<Rightarrow> if pw \<noteq> [] then Some (TRINO_USER cfg, pw) else None);
          http_scheme = (if TRINO_USE_HTTPS cfg then ''https'' else ''http'')
      in \<lparr>conn_host = host, conn_port = TRINO_PORT cfg, conn_user = TRINO_USER cfg,
          conn_auth = auth, conn_http_scheme = http_scheme,
          conn_catalog = TRINO_CATALOG cfg, conn_schema = TRINO_SCHEMA cfg\<rparr>)"

text \<open>
  \<open>get_trino_connection\<close>: a failure of the client is raised again as an \<open>Exception\<close> whose
  text is the formatted message.
\<close>

definition get_trino_connection :: "config \<Rightarrow> env \<Rightarrow> (exn + unit) \<times> event list" where
  "get_trino_connection cfg e =
     (let args = connection_args cfg in
      case connect e args of
        Some err \<Rightarrow>
          (Inl (Exn ''Exception'' (format_error_message cfg err ''Connection attempt'')),
           [Connect args])
      | None \<Rightarrow> (Inr (), [Connect args]))"

text \<open>\<open>format_results\<close>; every exception inside it is caught and reported in the result.\<close>

definition format_results :: "env \<Rightarrow> cursor \<Rightarrow> int \<Rightarrow> string \<times> event list" where
  "format_results e cur limit =
     (let columns = (case description cur of None \<Rightarrow> [] | Some cols \<Rightarrow> cols) in
      if columns = [] then (''No columns returned'', [])
      else
        case fetchmany cur limit of
          Inl err \<Rightarrow> (''Error formatting results: '' @ exn_msg err, [FetchMany limit])
        | Inr rows \<Rightarrow>
            if rows = [] then (''No results returned'', [FetchMany limit])
            else
              (case tabulate e columns rows of
                 Inl err \<Rightarrow> (''Error formatting results: '' @ exn_msg err, [FetchMany limit])
               | Inr table \<Rightarrow>
                   let result_count = int (length rows);
                       total_msg = nl @ nl @ ''Showing '' @ str_of_int result_count @ '' row(s)'';
                       total_msg = (if result_count = limit
                                    then total_msg @ '' (limited to '' @ str_of_int limit @ '' rows)''
                                    else total_msg)
                   in (table @ total_msg, [FetchMany limit])))"

section \<open>The tools\<close>

text \<open>
  The statements inside the \<open>try\<close> of \<open>execute_query\<close> and of \<open>sample_table\<close> are the same
  six, for a statement text and a row limit: connect, open a cursor, execute, format,
  close the cursor, close the connection.  \<open>Inl\<close> is the exception that leaves the block,
  together with the calls made up to it.
\<close>

definition try_block :: "config \<Rightarrow> env \<Rightarrow> string \<Rightarrow> int \<Rightarrow> (exn + string) \<times> event list" where
  "try_block cfg e sql limit =
     (case get_trino_connection cfg e of
        (Inl err, ev0) \<Rightarrow> (Inl err, ev0)
      | (Inr _, ev0) \<Rightarrow>
          (case cursor_open e of
             Some err \<Rightarrow> (Inl err, ev0 @ [Cursor])
           | None \<Rightarrow>
               (case execute e sql of
                  Inl err \<Rightarrow> (Inl err, ev0 @ [Cursor, Execute sql])
                | Inr cur \<Rightarrow>
                    (let (result, ev1) = format_results e cur limit;
                         ev = ev0 @ [Cursor, Execute sql] @ ev1
                     in case cursor_close e of
                          Some err \<Rightarrow> (Inl err, ev @ [CursorClose])
                        | None \<Rightarrow>
                            (case conn_close e of
                               Some err \<Rightarrow> (Inl err, ev @ [CursorClose, ConnClose])
                             | None \<Rightarrow> (Inr result, ev @ [CursorClose, ConnClose]))))))"

definition query_required_message :: string where
  "query_required_message = cross_mark @ '' Error: Query is required''"

definition policy_message :: string where
  "policy_message =
     cross_mark @
     '' Error: Only read-only queries are allowed (SELECT, SHOW, DESCRIBE, EXPLAIN, WITH)''"

definition execute_query :: "config \<Rightarrow> env \<Rightarrow> string \<Rightarrow> string \<times> event list" where
  "execute_query cfg e query =
     (if strip query = [] then (query_required_message, [])
      else if \<not> validate_query query then (policy_message, [])
      else
        case try_block cfg e query 100 of
          (Inr result, ev) \<Rightarrow>
            (check_mark @ '' Query executed successfully:'' @ nl @ nl @ result, ev)
        | (Inl err, ev) \<Rightarrow>
            (format_error_message cfg err (''Executing query: '' @ take 100 query @ ''...''), ev))"

text \<open>
  \<open>sample_table\<close>.  \<open>parse_limit\<close> is its first \<open>try\<close> block, \<open>None\<close> being the
  \<open>ValueError\<close> branch; \<open>sample_run\<close> is the second one, for the table and limit found.
\<close>

definition parse_limit :: "env \<Rightarrow> string \<Rightarrow> int option" where
  "parse_limit e limit =
     (case (if strip limit \<noteq> [] then py_int (int_max_str_digits e) limit else Some 10) of
        None \<Rightarrow> None
      | Some limit_int \<Rightarrow> Some (if limit_int > 100 then 100 else limit_int))"

definition full_table_name :: "config \<Rightarrow> string \<Rightarrow> string \<Rightarrow> string \<Rightarrow> string" where
  "full_table_name cfg table schema_arg catalog_arg =
     (let catalog_name =
            (if strip catalog_arg \<noteq> [] then strip catalog_arg else TRINO_CATALOG cfg);
          schema_name =
            (if strip schema_arg \<noteq> [] then strip schema_arg else TRINO_SCHEMA cfg)
      in catalog_name @ ''.'' @ schema_name @ ''.'' @ table)"

definition sample_run :: "config \<Rightarrow> env \<Rightarrow> string \<Rightarrow> int \<Rightarrow> string \<times> event list" where
  "sample_run cfg e full_table limit_int =
     (case try_block cfg e
             (''SELECT * FROM '' @ full_table @ '' LIMIT '' @ str_of_int limit_int) limit_int of
        (Inr result, ev) \<Rightarrow>
          (check_mark @ '' Sample from '' @ full_table @ '':'' @ nl @ nl @ result, ev)
      | (Inl err, ev) \<Rightarrow>
          (format_error_message cfg err (''Sampling table: '' @ full_table), ev))"

definition sample_table ::
  "config \<Rightarrow> env \<Rightarrow> string \<Rightarrow> string \<Rightarrow> string \<Rightarrow> string \<Rightarrow> string \<times> event list" where
  "sample_table cfg e table limit schema_arg catalog_arg =
     (if strip table = [] then (cross_mark @ '' Error: Table name is required'', [])
      else
        let full_table = full_table_name cfg table schema_arg catalog_arg in
        case parse_limit e limit of
          None \<Rightarrow> (cross_mark @ '' Error: Invalid limit value: '' @ limit, [])
        | Some limit_int \<Rightarrow> sample_run cfg e full_table limit_int)"

section \<open>Concrete settings and engines\<close>

text \<open>The settings the module takes when no environment variable is set.\<close>

definition default_config :: config where
  "default_config =
     \<lparr>TRINO_HOST = ''host.docker.internal'', TRINO_PORT = 8088, TRINO_USER = ''trino'',
      TRINO_PASSWORD = None, TRINO_USE_HTTPS = False, TRINO_CATALOG = ''tpch'',
      TRINO_SCHEMA = ''tiny''\<rparr>"

text \<open>
  An engine on which every call succeeds and every statement has one column and no
  rows, and one on which \<open>execute\<close> raises.
\<close>

definition quiet_engine :: env where
  "quiet_engine =
     \<lparr>connect = (\<lambda>args. None), cursor_open = None,
      execute = (\<lambda>sql. Inr \<lparr>description = Some [''a''], fetchmany = (\<lambda>n. Inr [])\<rparr>),
      cursor_close = None, conn_close = None,
      tabulate = (\<lambda>cols rows. Inr []), int_max_str_digits = 4300\<rparr>"

definition failing_engine :: env where
  "failing_engine =
     quiet_engine\<lparr>execute := (\<lambda>sql. Inl (Exn ''TrinoUserError'' ''Table does not exist''))\<rparr>"

text \<open>
  \<open>s.endswith(k)\<close>, the note that \<open>format_results\<close> appends when the row limit is reached,
  and two cursors: one with no rows and one with two.
\<close>

definition endswith :: "string \<Rightarrow> string \<Rightarrow> bool" where
  "endswith s k = startswith (rev s) (rev k)"

definition truncation_note :: "int \<Rightarrow> string" where
  "truncation_note limit = '' (limited to '' @ str_of_int limit @ '' rows)''"

definition empty_cursor :: cursor where
  "empty_cursor = \<lparr>description = Some [''a''], fetchmany = (\<lambda>n. Inr [])\<rparr>"

definition two_row_cursor :: cursor where
  "two_row_cursor =
     \<lparr>description = Some [''a''], fetchmany = (\<lambda>n. Inr (take (nat n) [[''1''], [''2'']]))\<rparr>"

section \<open>Facts about strings and integers\<close>

lemma strip_Nil: "strip [] = []"
  by (simp add: strip_def)

lemma strip_nonempty: "c \<in> set s \<Longrightarrow> \<not> is_space c \<Longrightarrow> strip s \<noteq> []"
proof -
  assume a: "c \<in> set s" "\<not> is_space c"
  then have ne: "dropWhile is_space s \<noteq> []"
    by (auto simp: dropWhile_eq_Nil_conv)
  then have "\<not> is_space (hd (dropWhile is_space s))"
    by (simp add: hd_dropWhile)
  moreover have "hd (dropWhile is_space s) \<in> set (rev (dropWhile is_space s))"
    using ne by simp
  ultimately have "dropWhile is_space (rev (dropWhile is_space s)) \<noteq> []"
    by (metis dropWhile_eq_Nil_conv)
  then show ?thesis
    by (simp add: strip_def)
qed

lemma digit_not_space: "is_digit c \<Longrightarrow> \<not> is_space c"
  by (auto simp: is_digit_def is_space_def Let_def)

lemma py_int_digit: "py_int m s = Some n \<Longrightarrow> \<exists>c \<in> set s. is_digit c"
proof -
  assume a: "py_int m s = Some n"
  define t where "t = rev (dropWhile c_isspace (rev (dropWhile c_isspace s)))"
  define body where "body = (if startswith t ''-'' \<or> startswith t ''+'' then tl t else t)"
  from a have "parse_digits body \<noteq> None"
    by (auto simp: py_int_def Let_def t_def body_def split: if_splits option.splits)
  then have b: "body \<noteq> []" "is_digit (hd body)"
    by (auto simp: parse_digits_def split: if_splits)
  then have "hd body \<in> set body"
    by simp
  moreover have "set body \<subseteq> set t"
    by (cases t) (auto simp: body_def)
  moreover have "set t \<subseteq> set s"
    unfolding t_def by (auto dest!: set_dropWhileD)
  ultimately show ?thesis
    using b by blast
qed

lemma py_int_not_blank: "py_int m s = Some n \<Longrightarrow> strip s \<noteq> []"
  using py_int_digit strip_nonempty digit_not_space by blast

section \<open>The host passed to the engine client\<close>

text \<open>
  Claim C9.  The host that \<open>get_trino_connection\<close> passes to the engine client is the
  configured host, except that the configured host \<open>localhost\<close>, and only that exact
  string, is replaced by \<open>host.docker.internal\<close>; the call to the client carries these
  arguments.
\<close>

theorem connection_host_rewritten:
  "conn_host (connection_args cfg) =
     (if TRINO_HOST cfg = ''localhost'' then ''host.docker.internal'' else TRINO_HOST cfg)
   \<and> snd (get_trino_connection cfg e) = [Connect (connection_args cfg)]"
  by (simp add: connection_args_def get_trino_connection_def Let_def split: option.splits)

theorem connection_host_rewritten_witness:
  "conn_host (connection_args (default_config\<lparr>TRINO_HOST := ''localhost''\<rparr>)) =
     ''host.docker.internal''
   \<and> conn_host (connection_args (default_config\<lparr>TRINO_HOST := ''LOCALHOST''\<rparr>)) =
     ''LOCALHOST''
   \<and> conn_host (connection_args (default_config\<lparr>TRINO_HOST := ''trino.example.com''\<rparr>)) =
     ''trino.example.com''"
  using connection_host_rewritten [of "default_config\<lparr>TRINO_HOST := ''localhost''\<rparr>" quiet_engine]
        connection_host_rewritten [of "default_config\<lparr>TRINO_HOST := ''LOCALHOST''\<rparr>" quiet_engine]
        connection_host_rewritten
          [of "default_config\<lparr>TRINO_HOST := ''trino.example.com''\<rparr>" quiet_engine]
  by (simp add: default_config_def)

section \<open>Rejected queries\<close>

lemma validate_empty: "\<not> validate_query []"
  by code_simp

lemma drop_table_foo: "strip ''DROP TABLE foo'' \<noteq> [] \<and> \<not> validate_query ''DROP TABLE foo''"
  by code_simp

lemma values_not_named:
  "validate_query ''VALUES (1)'' \<and> \<not> contains ''VALUES'' policy_message"
  by code_simp

text \<open>
  Claim C5, as stated, fails in two places.  The empty query is rejected by the gate, and
  \<open>execute_query\<close> answers it with the message that a query is required, which is not the
  policy message.  And the policy message does not name the set of allowed keywords:
  the gate allows a query that starts with \<open>VALUES\<close>, a keyword that the message does
  not contain.
\<close>

theorem blank_query_counterexample:
  "\<not> validate_query [] \<and>
   execute_query default_config quiet_engine [] = (query_required_message, []) \<and>
   query_required_message \<noteq> policy_message \<and>
   ''VALUES'' \<in> set allowed_starts \<and> validate_query ''VALUES (1)'' \<and>
   \<not> contains ''VALUES'' policy_message"
  using validate_empty values_not_named
  by (simp add: execute_query_def strip_Nil query_required_message_def policy_message_def
      allowed_starts_def)

text \<open>
  Claim C5, amended.  A query that is not blank and that the gate rejects is answered
  with the fixed policy message; a blank query is answered with the fixed message that a
  query is required.  In both cases no call into the engine client is made: no
  connection is opened and nothing is executed.
\<close>

theorem rejected_query_not_forwarded:
  "(strip q \<noteq> [] \<and> \<not> validate_query q \<longrightarrow> execute_query cfg e q = (policy_message, []))
   \<and> (strip q = [] \<longrightarrow> execute_query cfg e q = (query_required_message, []))"
  by (simp add: execute_query_def)

theorem rejected_query_not_forwarded_witness:
  "strip ''DROP TABLE foo'' \<noteq> [] \<and> \<not> validate_query ''DROP TABLE foo'' \<and>
   execute_query default_config quiet_engine ''DROP TABLE foo'' = (policy_message, []) \<and>
   snd (execute_query default_config failing_engine []) = []"
  using rejected_query_not_forwarded [of "''DROP TABLE foo''" default_config quiet_engine]
        rejected_query_not_forwarded [of "[]" default_config failing_engine]
        drop_table_foo strip_Nil
  by simp

section \<open>Closing the connection\<close>

lemma select_missing:
  "strip ''SELECT * FROM missing'' \<noteq> [] \<and> validate_query ''SELECT * FROM missing''"
  by code_simp

text \<open>
  Claim C6 does not hold of the code.  On the engine whose \<open>execute\<close> raises, the allowed
  statement \<open>SELECT * FROM missing\<close> makes \<open>execute_query\<close> connect, open a cursor and
  execute, and then return: the connection is never closed.  On the engine where every
  call succeeds the last call is the closing of the connection.
\<close>

theorem failed_statement_leaves_connection_open:
  "snd (execute_query default_config failing_engine ''SELECT * FROM missing'') =
     [Connect (connection_args default_config), Cursor, Execute ''SELECT * FROM missing'']
   \<and> ConnClose \<notin> set (snd (execute_query default_config failing_engine ''SELECT * FROM missing''))
   \<and> last (snd (execute_query default_config quiet_engine ''SELECT * FROM missing'')) = ConnClose"
  using select_missing
  by (simp add: execute_query_def try_block_def get_trino_connection_def format_results_def
      failing_engine_def quiet_engine_def Let_def split: prod.splits)

section \<open>A forbidden pattern behind a comment\<close>

lemma insert_behind_comment:
  "re_search [Bnd, Lit ''INSERT'', Ws1, Lit ''INTO'', Bnd]
     (upper ''EXPLAIN ANALYZE/**/INSERT INTO t VALUES (1)'')
   \<and> strip_block_comments (strip_line_comments ''EXPLAIN ANALYZE/**/INSERT INTO t VALUES (1)'') =
       ''EXPLAIN ANALYZEINSERT INTO t VALUES (1)''
   \<and> strip ''EXPLAIN ANALYZE/**/INSERT INTO t VALUES (1)'' \<noteq> []
   \<and> validate_query ''EXPLAIN ANALYZE/**/INSERT INTO t VALUES (1)''
   \<and> \<not> validate_query ''EXPLAIN ANALYZE /**/INSERT INTO t VALUES (1)''"
  by code_simp

text \<open>
  Claim C1 does not hold of the code.  In \<open>EXPLAIN ANALYZE/**/INSERT INTO t VALUES (1)\<close>
  the pattern \<open>INSERT INTO\<close> stands outside the only comment, at a word boundary of the
  text.  The comment is deleted with nothing in its place, which joins \<open>ANALYZE\<close> and
  \<open>INSERT\<close> into one word; no pattern matches the joined text, the gate allows the query,
  and \<open>execute_query\<close> sends the text as it was given to the engine.  With a blank before
  the comment the same query is rejected.
\<close>

theorem insert_behind_comment_is_forwarded:
  "re_search [Bnd, Lit ''INSERT'', Ws1, Lit ''INTO'', Bnd]
     (upper ''EXPLAIN ANALYZE/**/INSERT INTO t VALUES (1)'')
   \<and> strip_block_comments (strip_line_comments ''EXPLAIN ANALYZE/**/INSERT INTO t VALUES (1)'') =
       ''EXPLAIN ANALYZEINSERT INTO t VALUES (1)''
   \<and> validate_query ''EXPLAIN ANALYZE/**/INSERT INTO t VALUES (1)''
   \<and> \<not> validate_query ''EXPLAIN ANALYZE /**/INSERT INTO t VALUES (1)''
   \<and> Execute ''EXPLAIN ANALYZE/**/INSERT INTO t VALUES (1)''
       \<in> set (snd (execute_query default_config quiet_engine
                     ''EXPLAIN ANALYZE/**/INSERT INTO t VALUES (1)''))"
  using insert_behind_comment
  by (simp add: execute_query_def try_block_def get_trino_connection_def format_results_def
      quiet_engine_def Let_def split: prod.splits)

section \<open>The result formatter\<close>

lemma startswith_append: "startswith (k @ s) k"
  by (induction k) auto

lemma endswith_append: "endswith (s @ k) k"
  by (simp add: endswith_def startswith_append)

lemma startswith_length: "startswith s k \<Longrightarrow> length k \<le> length s"
  by (induction s k rule: startswith.induct) auto

lemma startswith_take: "startswith s k \<Longrightarrow> n \<le> length k \<Longrightarrow> take n s = take n k"
  by (induction s k arbitrary: n rule: startswith.induct) (auto simp: take_Cons')

lemma row_count_no_note: "\<not> endswith (s @ '' row(s)'') (truncation_note limit)"
proof
  assume "endswith (s @ '' row(s)'') (truncation_note limit)"
  then have "startswith (rev '' row(s)'' @ rev s) (rev '' rows)'' @ rev ('' (limited to '' @ str_of_int limit))"
    by (simp add: endswith_def truncation_note_def)
  then have "take 3 (rev '' row(s)'' @ rev s) = take 3 (rev '' rows)'' @ rev ('' (limited to '' @ str_of_int limit))"
    by (rule startswith_take) simp
  then show False by simp
qed

lemma str_of_int_0: "str_of_int 0 = ''0''"
  by code_simp
lemma str_of_int_2: "str_of_int 2 = ''2''"
  by code_simp

text \<open>
  Claim C8, as stated, fails when the row limit is zero, which \<open>sample_table\<close> passes on
  for the limit \<open>0\<close>: no row is fetched, so the number of rows equals the limit, and the
  result is the message that no results were returned, without a truncation note.
\<close>

theorem no_rows_at_limit_zero_counterexample:
  "fetchmany empty_cursor 0 = Inr [] \<and>
   int (length ([] :: string list list)) = 0 \<and>
   format_results quiet_engine empty_cursor 0 = (''No results returned'', [FetchMany 0]) \<and>
   \<not> endswith ''No results returned'' (truncation_note 0)"
  by (simp add: format_results_def empty_cursor_def endswith_def truncation_note_def str_of_int_0)

lemma format_results_rows:
  "description cur = Some cols \<Longrightarrow> cols \<noteq> [] \<Longrightarrow> fetchmany cur limit = Inr rows \<Longrightarrow>
   rows \<noteq> [] \<Longrightarrow> tabulate e cols rows = Inr table \<Longrightarrow>
   fst (format_results e cur limit) =
     (table @ nl @ nl @ ''Showing '' @ str_of_int (int (length rows)) @ '' row(s)'') @
     (if int (length rows) = limit then truncation_note limit else [])"
  by (simp add: format_results_def Let_def truncation_note_def)

lemma format_results_no_columns:
  "description cur = None \<or> description cur = Some [] \<Longrightarrow>
   format_results e cur limit = (''No columns returned'', [])"
  by (auto simp: format_results_def)

lemma format_results_no_rows:
  "description cur = Some cols \<Longrightarrow> cols \<noteq> [] \<Longrightarrow> fetchmany cur limit = Inr [] \<Longrightarrow>
   format_results e cur limit = (''No results returned'', [FetchMany limit])"
  by (simp add: format_results_def)

text \<open>
  Claim C8, amended.  A cursor without columns gives the fixed message
  \<open>No columns returned\<close>; columns and no fetched row give the fixed message
  \<open>No results returned\<close>; when at least one row is fetched and the table renders, the
  result is the table and the count of rows, followed by the truncation note that states
  the limit when the number of rows equals the limit, and by nothing when it is less.
\<close>

theorem format_results_cases:
  "(description cur = None \<or> description cur = Some [] \<longrightarrow>
      format_results e cur limit = (''No columns returned'', []))
   \<and> (description cur = Some cols \<and> cols \<noteq> [] \<and> fetchmany cur limit = Inr [] \<longrightarrow>
      format_results e cur limit = (''No results returned'', [FetchMany limit]))
   \<and> (description cur = Some cols \<and> cols \<noteq> [] \<and> fetchmany cur limit = Inr rows \<and> rows \<noteq> [] \<and>
      tabulate e cols rows = Inr table \<longrightarrow>
        (int (length rows) = limit \<longrightarrow>
           fst (format_results e cur limit) =
             table @ nl @ nl @ ''Showing '' @ str_of_int limit @ '' row(s)'' @ truncation_note limit
           \<and> endswith (fst (format_results e cur limit)) (truncation_note limit))
      \<and> (int (length rows) < limit \<longrightarrow>
           fst (format_results e cur limit) =
             table @ nl @ nl @ ''Showing '' @ str_of_int (int (length rows)) @ '' row(s)''
           \<and> \<not> endswith (fst (format_results e cur limit)) (truncation_note limit)))"
proof (intro conjI impI)
  assume "description cur = None \<or> description cur = Some []"
  then show "format_results e cur limit = (''No columns returned'', [])"
    by (rule format_results_no_columns)
next
  assume "description cur = Some cols \<and> cols \<noteq> [] \<and> fetchmany cur limit = Inr []"
  then show "format_results e cur limit = (''No results returned'', [FetchMany limit])"
    by (simp add: format_results_no_rows)
next
  assume h: "description cur = Some cols \<and> cols \<noteq> [] \<and> fetchmany cur limit = Inr rows \<and>
    rows \<noteq> [] \<and> tabulate e cols rows = Inr table" and eq: "int (length rows) = limit"
  from h eq show "fst (format_results e cur limit) =
      table @ nl @ nl @ ''Showing '' @ str_of_int limit @ '' row(s)'' @ truncation_note limit"
    by (simp add: format_results_rows)
  from h eq have "fst (format_results e cur limit) =
      (table @ nl @ nl @ ''Showing '' @ str_of_int limit @ '' row(s)'') @ truncation_note limit"
    by (simp add: format_results_rows)
  then show "endswith (fst (format_results e cur limit)) (truncation_note limit)"
    by (simp only: endswith_append)
next
  assume h: "description cur = Some cols \<and> cols \<noteq> [] \<and> fetchmany cur limit = Inr rows \<and>
    rows \<noteq> [] \<and> tabulate e cols rows = Inr table" and lt: "int (length rows) < limit"
  from h lt show "fst (format_results e cur limit) =
      table @ nl @ nl @ ''Showing '' @ str_of_int (int (length rows)) @ '' row(s)''"
    by (simp add: format_results_rows)
  from h lt have "fst (format_results e cur limit) =
      (table @ nl @ nl @ ''Showing '' @ str_of_int (int (length rows))) @ '' row(s)''"
    by (simp add: format_results_rows)
  then show "\<not> endswith (fst (format_results e cur limit)) (truncation_note limit)"
    by (simp only: row_count_no_note not_False_eq_True)
qed

lemma two_rows: "fetchmany two_row_cursor 2 = Inr [[''1''], [''2'']] \<and>
  fetchmany two_row_cursor 5 = Inr [[''1''], [''2'']] \<and> description two_row_cursor = Some [''a'']"
  by (simp add: two_row_cursor_def)

theorem format_results_cases_witness:
  "format_results quiet_engine \<lparr>description = None, fetchmany = (\<lambda>n. Inr [])\<rparr> 100 =
     (''No columns returned'', [])
   \<and> format_results quiet_engine empty_cursor 100 = (''No results returned'', [FetchMany 100])
   \<and> fst (format_results quiet_engine two_row_cursor 2) =
       nl @ nl @ ''Showing 2 row(s) (limited to 2 rows)''
   \<and> fst (format_results quiet_engine two_row_cursor 5) = nl @ nl @ ''Showing 2 row(s)''"
  using format_results_cases
          [of "\<lparr>description = None, fetchmany = (\<lambda>n. Inr [])\<rparr>" quiet_engine 100 "[]" "[]" "[]"]
        format_results_cases [of empty_cursor quiet_engine 100 "[''a'']" "[]" "[]"]
        format_results_cases [of two_row_cursor quiet_engine 2 "[''a'']" "[[''1''], [''2'']]" "[]"]
        format_results_cases [of two_row_cursor quiet_engine 5 "[''a'']" "[[''1''], [''2'']]" "[]"]
        two_rows
  by (simp add: empty_cursor_def quiet_engine_def truncation_note_def str_of_int_2)

section \<open>The limit of sample_table\<close>

lemma str_of_int_10: "str_of_int 10 = ''10''"
  by code_simp

lemma sample_run_statement:
  "connect e (connection_args cfg) = None \<Longrightarrow> cursor_open e = None \<Longrightarrow>
   take 3 (snd (sample_run cfg e ft n)) =
     [Connect (connection_args cfg), Cursor,
      Execute (''SELECT * FROM '' @ ft @ '' LIMIT '' @ str_of_int n)]"
  by (simp add: sample_run_def try_block_def get_trino_connection_def Let_def
      split: prod.splits sum.splits option.splits)

lemma sample_table_parsed:
  "strip table \<noteq> [] \<Longrightarrow> py_int (int_max_str_digits e) limit = Some n \<Longrightarrow>
   sample_table cfg e table limit sch cat =
     sample_run cfg e (full_table_name cfg table sch cat) (if n > 100 then 100 else n)"
  by (simp add: sample_table_def parse_limit_def py_int_not_blank Let_def)


lemma quiet_engine_facts:
  "connect quiet_engine a = None \<and> cursor_open quiet_engine = None \<and>
   int_max_str_digits quiet_engine = 4300"
  by (simp add: quiet_engine_def)

lemma orders_facts:
  "strip ''orders'' \<noteq> [] \<and> py_int 4300 ''500'' = Some 500 \<and> py_int 4300 ''abc'' = None \<and>
   strip ''abc'' \<noteq> [] \<and> strip ''  '' = [] \<and> py_int 4300 ''-5'' = Some (- 5) \<and>
   py_int 4300 ''0'' = Some 0 \<and>
   full_table_name default_config ''orders'' [] [] = ''tpch.tiny.orders''"
  by code_simp


text \<open>
  Claim C10.  For a table name that is not blank, every limit that parses to an integer of
  at most 100, zero and negative ones included, runs the sample with that integer, and
  the statement sent ends in \<open>LIMIT\<close> and the decimal text of that integer.
\<close>

theorem sample_table_no_lower_bound:
  "strip table \<noteq> [] \<Longrightarrow> py_int (int_max_str_digits e) limit = Some n \<Longrightarrow> n \<le> 100 \<Longrightarrow>
   sample_table cfg e table limit sch cat =
     sample_run cfg e (full_table_name cfg table sch cat) n
   \<and> (connect e (connection_args cfg) = None \<and> cursor_open e = None \<longrightarrow>
        take 3 (snd (sample_table cfg e table limit sch cat)) =
          [Connect (connection_args cfg), Cursor,
           Execute (''SELECT * FROM '' @ full_table_name cfg table sch cat @ '' LIMIT '' @
                    str_of_int n)])"
  using sample_run_statement [of e cfg "full_table_name cfg table sch cat" n]
  by (simp add: sample_table_parsed)

lemma str_of_int_neg5: "str_of_int (- 5) = ''-5'' \<and> str_of_int 0 = ''0''"
  by code_simp

theorem sample_table_no_lower_bound_witness:
  "py_int 4300 ''-5'' = Some (- 5) \<and> py_int 4300 ''0'' = Some 0 \<and>
   take 3 (snd (sample_table default_config quiet_engine ''orders'' ''-5'' [] [])) =
     [Connect (connection_args default_config), Cursor,
      Execute ''SELECT * FROM tpch.tiny.orders LIMIT -5'']
   \<and> take 3 (snd (sample_table default_config quiet_engine ''orders'' ''0'' [] [])) =
     [Connect (connection_args default_config), Cursor,
      Execute ''SELECT * FROM tpch.tiny.orders LIMIT 0'']"
proof -
  have t: "strip ''orders'' \<noteq> []"
    using orders_facts by simp
  have f: "full_table_name default_config ''orders'' [] [] = ''tpch.tiny.orders''"
    using orders_facts by simp
  have c: "connect quiet_engine (connection_args default_config) = None \<and>
           cursor_open quiet_engine = None"
    using quiet_engine_facts by simp
  have p1: "py_int (int_max_str_digits quiet_engine) ''-5'' = Some (- 5)"
    using orders_facts quiet_engine_facts by simp
  have p2: "py_int (int_max_str_digits quiet_engine) ''0'' = Some 0"
    using orders_facts quiet_engine_facts by simp
  have b1: "(- 5 :: int) \<le> 100" and b2: "(0 :: int) \<le> 100"
    by simp_all
  have r1: "take 3 (snd (sample_table default_config quiet_engine ''orders'' ''-5'' [] [])) =
     [Connect (connection_args default_config), Cursor,
      Execute (''SELECT * FROM '' @ full_table_name default_config ''orders'' [] [] @ '' LIMIT '' @
               str_of_int (- 5))]"
    using sample_table_no_lower_bound [OF t p1 b1, of default_config "[]" "[]"] c
    by blast
  have r2: "take 3 (snd (sample_table default_config quiet_engine ''orders'' ''0'' [] [])) =
     [Connect (connection_args default_config), Cursor,
      Execute (''SELECT * FROM '' @ full_table_name default_config ''orders'' [] [] @ '' LIMIT '' @
               str_of_int 0)]"
    using sample_table_no_lower_bound [OF t p2 b2, of default_config "[]" "[]"] c
    by blast
  show ?thesis
    using orders_facts r1 r2 by (simp add: f str_of_int_neg5)
qed

section \<open>Leading parentheses\<close>

lemma paren_not_space: "\<not> is_space (CHR ''('')"
  by (simp add: is_space_def)

lemma startswith_replicate: "0 < k \<Longrightarrow> startswith (replicate k c @ r) [c]"
  by (cases k) auto

lemma dropWhile_replicate: "dropWhile (\<lambda>x. x = c) (replicate k c @ r) = dropWhile (\<lambda>x. x = c) r"
  by (induction k) auto

lemma dropWhile_not_start: "\<not> startswith r [c] \<Longrightarrow> dropWhile (\<lambda>x. x = c) r = r"
  by (cases r) auto

lemma sub_leading_parens_replicate:
  "0 < k \<Longrightarrow> \<not> startswith r ''('' \<Longrightarrow>
   sub_leading_parens (replicate k (CHR ''('') @ r) = dropWhile is_space r"
proof -
  assume k: "0 < k" and r: "\<not> startswith r ''(''"
  have "dropWhile is_space (replicate k (CHR ''('') @ r) = replicate k (CHR ''('') @ r"
    using k paren_not_space by (cases k) auto
  then show ?thesis
    using k r
    by (simp add: sub_leading_parens_def startswith_replicate dropWhile_replicate
        dropWhile_not_start)
qed

lemma paren_cte: "validate_query ''(WITH x AS (SELECT 1) SELECT * FROM x)'' \<and>
  strip (query_upper ''(WITH x AS (SELECT 1) SELECT * FROM x)'') =
    replicate 1 (CHR ''('') @ ''WITH X AS (SELECT 1) SELECT * FROM X)''"
  by code_simp

text \<open>
  What the program does with a text that begins with parentheses: when the trimmed,
  uppercased text without comments consists of one or more opening parentheses followed
  by a rest that does not begin with a parenthesis, the verdict is that no forbidden
  pattern matches and that the rest, without its leading whitespace, starts with an
  allowed keyword.  Only the first run of parentheses is removed.
\<close>

lemma first_paren_run_verdict:
  "strip (query_upper q) = replicate k (CHR ''('') @ r \<Longrightarrow> 0 < k \<Longrightarrow> \<not> startswith r ''('' \<Longrightarrow>
   validate_query q =
     (\<not> list_ex (\<lambda>pattern. re_search pattern (query_upper q)) forbidden_patterns \<and>
      list_ex (\<lambda>keyword. startswith (dropWhile is_space r) keyword) allowed_starts)"
proof -
  assume h: "strip (query_upper q) = replicate k (CHR ''('') @ r" "0 < k" "\<not> startswith r ''(''"
  then have "startswith (strip (query_upper q)) ''(''"
    by (simp add: startswith_replicate)
  moreover have "sub_leading_parens (strip (query_upper q)) = dropWhile is_space r"
    using h by (simp add: sub_leading_parens_replicate)
  ultimately show ?thesis
    by (simp add: validate_query_def Let_def)
qed

text \<open>
  Claim C3 does not hold of the code.  The text \<open>( (SELECT 1))\<close> begins with an opening
  parenthesis and contains no forbidden pattern; with its leading parentheses and
  whitespace stripped the remainder is \<open>SELECT 1))\<close>, which starts with an allowed
  keyword.  The program removes one run of parentheses and the whitespace behind it and
  stops at the second parenthesis: it checks \<open>(SELECT 1))\<close> and rejects the query.  The
  same query without the blank, and the parenthesised query of the specification, are
  allowed.
\<close>

theorem paren_after_blank_is_rejected:
  "normalized ''( (SELECT 1))'' = ''( (SELECT 1))'' \<and>
   strip (query_upper ''( (SELECT 1))'') = ''( (SELECT 1))'' \<and>
   \<not> list_ex (\<lambda>pattern. re_search pattern (query_upper ''( (SELECT 1))'')) forbidden_patterns \<and>
   spec_remainder ''( (SELECT 1))'' = ''SELECT 1))'' \<and>
   list_ex (\<lambda>keyword. startswith (spec_remainder ''( (SELECT 1))'') keyword) allowed_starts \<and>
   sub_leading_parens ''( (SELECT 1))'' = ''(SELECT 1))'' \<and>
   \<not> list_ex (\<lambda>keyword. startswith (sub_leading_parens ''( (SELECT 1))'') keyword) allowed_starts \<and>
   \<not> validate_query ''( (SELECT 1))'' \<and>
   validate_query ''((SELECT 1))'' \<and>
   validate_query ''(WITH x AS (SELECT 1) SELECT * FROM x)''"
  by code_simp

section \<open>Whitespace in the normal form\<close>

lemma blank_is_space: "is_space (CHR '' '')"
  by (simp add: is_space_def)

lemma split_ws_words: "w \<in> set (split_ws s) \<Longrightarrow> w \<noteq> [] \<and> (\<forall>c \<in> set w. \<not> is_space c)"
proof (induction s rule: split_ws.induct)
  case 1
  then show ?case by simp
next
  case (2 c s)
  show ?case
  proof (cases "is_space c")
    case True
    with 2 show ?thesis by simp
  next
    case False
    with "2.prems" have "w = c # takeWhile (\<lambda>x. \<not> is_space x) s \<or>
        w \<in> set (split_ws (dropWhile (\<lambda>x. \<not> is_space x) s))"
      by simp
    then show ?thesis
    proof
      assume "w = c # takeWhile (\<lambda>x. \<not> is_space x) s"
      then show ?thesis
        using False set_takeWhileD [of _ "\<lambda>x. \<not> is_space x" s] by auto
    next
      assume "w \<in> set (split_ws (dropWhile (\<lambda>x. \<not> is_space x) s))"
      then show ?thesis
        using False "2.IH"(2) by blast
    qed
  qed
qed

lemma join_Cons: "ws \<noteq> [] \<Longrightarrow> join sep (w # ws) = w @ sep @ join sep ws"
  by (cases ws) auto

lemma join_hd_last:
  "ws \<noteq> [] \<Longrightarrow> \<forall>w \<in> set ws. w \<noteq> [] \<and> (\<forall>c \<in> set w. \<not> is_space c) \<Longrightarrow>
   join '' '' ws \<noteq> [] \<and> \<not> is_space (hd (join '' '' ws)) \<and> \<not> is_space (last (join '' '' ws))"
proof (induction ws)
  case Nil
  then show ?case by simp
next
  case (Cons w ws)
  then obtain a u where w: "w = a # u"
    by (cases w) auto
  show ?case
  proof (cases "ws = []")
    case True
    with Cons.prems w show ?thesis by auto
  next
    case False
    with Cons have "join '' '' ws \<noteq> [] \<and> \<not> is_space (last (join '' '' ws))"
      by simp
    moreover have "join '' '' (w # ws) = w @ '' '' @ join '' '' ws"
      using False by (simp add: join_Cons)
    ultimately show ?thesis
      using Cons.prems w by simp
  qed
qed

lemma join_split_ends:
  "join '' '' (split_ws s) = [] \<or>
   (\<not> is_space (hd (join '' '' (split_ws s))) \<and> \<not> is_space (last (join '' '' (split_ws s))))"
  using join_hd_last [of "split_ws s"] split_ws_words [of _ s]
  by (cases "split_ws s = []") auto

lemma dropWhile_hd: "xs \<noteq> [] \<Longrightarrow> \<not> P (hd xs) \<Longrightarrow> dropWhile P xs = xs"
  by (cases xs) auto

lemma strip_between:
  "\<forall>c \<in> set pre. is_space c \<Longrightarrow> \<forall>c \<in> set post. is_space c \<Longrightarrow>
   x = [] \<or> (\<not> is_space (hd x) \<and> \<not> is_space (last x)) \<Longrightarrow>
   strip (pre @ x @ post) = x"
proof (cases x)
  case Nil
  assume "\<forall>c \<in> set pre. is_space c" "\<forall>c \<in> set post. is_space c"
  then have "\<forall>c \<in> set (pre @ post). is_space c"
    by auto
  then have d: "dropWhile is_space (pre @ post) = []"
    by (simp only: dropWhile_eq_Nil_conv)
  have "strip (pre @ post) = []"
    unfolding strip_def d by simp
  with Nil show ?thesis
    by simp
next
  case (Cons a y)
  assume pre: "\<forall>c \<in> set pre. is_space c" and post: "\<forall>c \<in> set post. is_space c"
    and x: "x = [] \<or> (\<not> is_space (hd x) \<and> \<not> is_space (last x))"
  from pre have "dropWhile is_space (pre @ x @ post) = dropWhile is_space (x @ post)"
    by (simp add: dropWhile_append2)
  also have "\<dots> = x @ post"
    using Cons x by simp
  finally have l: "dropWhile is_space (pre @ x @ post) = x @ post" .
  have "dropWhile is_space (rev post @ rev x) = dropWhile is_space (rev x)"
    using post by (simp add: dropWhile_append)
  also have "\<dots> = rev x"
  proof (rule dropWhile_hd)
    have nx: "x \<noteq> []"
      using Cons by simp
    then show "rev x \<noteq> []"
      by simp
    from x nx have "\<not> is_space (last x)"
      by blast
    then show "\<not> is_space (hd (rev x))"
      by (simp add: hd_rev)
  qed
  finally show ?thesis
    by (simp add: strip_def l)
qed


lemma collapse_takeWhile:
  "collapse_ws s =
     takeWhile (\<lambda>x. \<not> is_space x) s @ collapse_ws (dropWhile (\<lambda>x. \<not> is_space x) s)"
  by (induction s) auto

lemma split_ws_dropWhile: "split_ws (dropWhile is_space s) = split_ws s"
  by (induction s) auto


lemma collapse_shape:
  "\<exists>post. (\<forall>c \<in> set post. is_space c) \<and>
          collapse_ws s = lead s @ join '' '' (split_ws s) @ post"
proof (induction s rule: split_ws.induct)
  case 1
  show ?case by (simp add: lead_def)
next
  case (2 c s)
  show ?case
  proof (cases "is_space c")
    case True
    with 2 obtain post where p: "\<forall>c \<in> set post. is_space c"
      "collapse_ws s = lead s @ join '' '' (split_ws s) @ post"
      by auto
    show ?thesis
    proof (cases "s \<noteq> [] \<and> is_space (hd s)")
      case True
      then obtain a t where s: "s = a # t" "is_space a"
        by (cases s) auto
      then have "collapse_ws (c # s) = collapse_ws s"
        using \<open>is_space c\<close> by simp
      moreover have "lead (c # s) = lead s"
        using s \<open>is_space c\<close> by (simp add: lead_def)
      ultimately show ?thesis
        using p \<open>is_space c\<close> by auto
    next
      case False
      then have "dropWhile is_space s = s"
        by (cases s) auto
      then have "collapse_ws (c # s) = '' '' @ collapse_ws s"
        using \<open>is_space c\<close> by simp
      moreover have "lead s = []" "lead (c # s) = '' ''"
        using False \<open>is_space c\<close> by (auto simp: lead_def)
      ultimately show ?thesis
        using p \<open>is_space c\<close> by auto
    qed
  next
    case False
    define w where "w = c # takeWhile (\<lambda>x. \<not> is_space x) s"
    define r where "r = dropWhile (\<lambda>x. \<not> is_space x) s"
    from False 2 obtain post where p: "\<forall>c \<in> set post. is_space c"
      "collapse_ws r = lead r @ join '' '' (split_ws r) @ post"
      by (auto simp: r_def)
    have c: "collapse_ws (c # s) = w @ collapse_ws r"
      using False collapse_takeWhile [of s] by (simp add: w_def r_def)
    have l: "lead (c # s) = []"
      using False by (simp add: lead_def)
    have sp: "split_ws (c # s) = w # split_ws r"
      using False by (simp add: w_def r_def)
    show ?thesis
    proof (cases "split_ws r = []")
      case True
      then have "collapse_ws (c # s) = w @ lead r @ post"
        using c p by simp
      moreover have "\<forall>c \<in> set (lead r @ post). is_space c"
        using p blank_is_space by (auto simp: lead_def)
      ultimately show ?thesis
        using l sp True by (intro exI [of _ "lead r @ post"]) simp
    next
      case False
      then have "r \<noteq> []"
        by auto
      then have "is_space (hd r)"
        unfolding r_def using hd_dropWhile [of "\<lambda>x. \<not> is_space x" s] by auto
      then have "lead r = '' ''"
        using \<open>r \<noteq> []\<close> by (simp add: lead_def)
      then have "collapse_ws (c # s) = (w @ '' '' @ join '' '' (split_ws r)) @ post"
        using c p by simp
      then show ?thesis
        using l sp False p by (intro exI [of _ post]) (simp add: join_Cons)
    qed
  qed
qed

lemma lead_space: "\<forall>c \<in> set (lead s). is_space c"
  using blank_is_space by (simp add: lead_def)

lemma strip_collapse: "strip (collapse_ws s) = join '' '' (split_ws s)"
proof -
  obtain post where "\<forall>c \<in> set post. is_space c"
    "collapse_ws s = lead s @ join '' '' (split_ws s) @ post"
    using collapse_shape by blast
  then show ?thesis
    using strip_between [OF lead_space, of post "join '' '' (split_ws s)" s] join_split_ends [of s]
    by simp
qed

lemma strip_join_split: "strip (join '' '' (split_ws s)) = join '' '' (split_ws s)"
  using strip_between [of "[]" "[]" "join '' '' (split_ws s)"] join_split_ends [of s]
  by simp

lemma upper_char_cases:
  "(97 \<le> (of_char c :: nat) \<and> (of_char c :: nat) \<le> 122 \<and>
      (of_char (upper_char c) :: nat) = of_char c - 32)
   \<or> (\<not> (97 \<le> (of_char c :: nat) \<and> (of_char c :: nat) \<le> 122) \<and> upper_char c = c)"
proof (cases "97 \<le> (of_char c :: nat) \<and> (of_char c :: nat) \<le> 122")
  case True
  then have "(of_char c - 32 :: nat) mod 256 = of_char c - 32"
    by (intro mod_less) arith
  moreover have "upper_char c = char_of (of_char c - 32 :: nat)"
    unfolding upper_char_def Let_def using True by (rule if_P)
  ultimately have "(of_char (upper_char c) :: nat) = of_char c - 32"
    by (simp only: of_char_of)
  with True show ?thesis
    by blast
next
  case False
  have "upper_char c = c"
    unfolding upper_char_def Let_def using False by (rule if_not_P)
  with False show ?thesis
    by blast
qed

lemma is_space_upper_char: "is_space (upper_char c) = is_space c"
proof -
  from upper_char_cases [of c] show ?thesis
  proof
    assume h: "97 \<le> (of_char c :: nat) \<and> (of_char c :: nat) \<le> 122 \<and>
      (of_char (upper_char c) :: nat) = of_char c - 32"
    then have "\<not> is_space c"
      unfolding is_space_def Let_def by arith
    moreover from h have "\<not> is_space (upper_char c)"
      unfolding is_space_def Let_def by arith
    ultimately show ?thesis
      by blast
  next
    assume "\<not> (97 \<le> (of_char c :: nat) \<and> (of_char c :: nat) \<le> 122) \<and> upper_char c = c"
    then show ?thesis
      by simp
  qed
qed

lemma strip_upper: "strip (upper s) = upper (strip s)"
proof -
  have h: "is_space \<circ> upper_char = is_space"
    by (auto simp: is_space_upper_char)
  show ?thesis
    by (simp add: strip_def upper_def dropWhile_map rev_map h)
qed

section \<open>The comment removal of the program\<close>

text \<open>
  Facts about the two passes of the program, and the texts on which they give the text
  without comments that the specification describes: every text that does not contain
  both a \<open>--\<close> and a \<open>/*\<close>.
\<close>

lemma drop_line_body:
  "CHR 0x0A \<notin> set c \<Longrightarrow>
   dropWhile (\<lambda>x. x \<noteq> CHR 0x0A) (c @ b) = dropWhile (\<lambda>x. x \<noteq> CHR 0x0A) b"
  by (induction c) auto

lemma drop_line_open:
  "CHR 0x0A \<notin> set c \<Longrightarrow>
   dropWhile (\<lambda>x. x \<noteq> CHR 0x0A) (s @ ''--'' @ c @ b) =
     (if CHR 0x0A \<in> set s then dropWhile (\<lambda>x. x \<noteq> CHR 0x0A) s @ ''--'' @ c @ b
      else dropWhile (\<lambda>x. x \<noteq> CHR 0x0A) b)"
  by (induction s) (auto simp: drop_line_body)

lemma strip_line_comment_body:
  "CHR 0x0A \<notin> set c \<Longrightarrow>
   strip_line_comments (a @ ''--'' @ c @ b) = strip_line_comments (a @ ''--'' @ b)"
proof (induction a rule: strip_line_comments.induct)
  case 1
  then show ?case
    by (simp add: drop_line_body)
next
  case (2 x)
  then show ?case
    by (simp add: drop_line_body)
next
  case (3 x y s)
  show ?case
  proof (cases "x = CHR ''-'' \<and> y = CHR ''-''")
    case True
    have e: "CHR 0x0A \<notin> set ([] :: string)"
      by simp
    show ?thesis
    proof (cases "CHR 0x0A \<in> set s")
      case nl: True
      have "strip_line_comments (dropWhile (\<lambda>x. x \<noteq> CHR 0x0A) s @ ''--'' @ c @ b) =
            strip_line_comments (dropWhile (\<lambda>x. x \<noteq> CHR 0x0A) s @ ''--'' @ b)"
        using "3.IH"(1) [OF True "3.prems"] .
      then show ?thesis
        using True nl drop_line_open [OF "3.prems", of s b] drop_line_open [OF e, of s b]
        by simp
    next
      case nl: False
      then show ?thesis
        using True drop_line_open [OF "3.prems", of s b] drop_line_open [OF e, of s b]
        by simp
    qed
  next
    case False
    then show ?thesis
      using "3.IH"(2) [OF False "3.prems"] by auto
  qed
qed

lemma contains_pair_append:
  "contains [p, q] (x @ y) =
     (contains [p, q] x \<or> contains [p, q] y \<or> (x \<noteq> [] \<and> y \<noteq> [] \<and> last x = p \<and> hd y = q))"
proof (induction x)
  case Nil
  then show ?case by simp
next
  case (Cons a x)
  show ?case
  proof (cases x)
    case Nil
    then show ?thesis
      by (cases y) auto
  next
    case (Cons b z)
    with Cons.IH show ?thesis
      by auto
  qed
qed

lemma strip_line_free:
  "\<not> contains ''--'' x \<Longrightarrow> x = [] \<or> last x \<noteq> CHR ''-'' \<or> y = [] \<or> hd y \<noteq> CHR ''-'' \<Longrightarrow>
   strip_line_comments (x @ y) = x @ strip_line_comments y"
proof (induction x rule: strip_line_comments.induct)
  case 1
  then show ?case by simp
next
  case (2 c)
  then show ?case
    by (cases y) auto
next
  case (3 c d s)
  then have n: "\<not> (c = CHR ''-'' \<and> d = CHR ''-'')" and m: "\<not> contains ''--'' (d # s)"
    by auto
  from "3.prems" have "d # s = [] \<or> last (d # s) \<noteq> CHR ''-'' \<or> y = [] \<or> hd y \<noteq> CHR ''-''"
    by simp
  with "3.IH"(2) [OF n m] have "strip_line_comments ((d # s) @ y) = (d # s) @ strip_line_comments y"
    by blast
  with n show ?case
    by auto
qed

lemma strip_block_free:
  "\<not> contains ''/*'' x \<Longrightarrow> x = [] \<or> last x \<noteq> CHR ''/'' \<or> y = [] \<or> hd y \<noteq> CHR ''*'' \<Longrightarrow>
   strip_block_comments (x @ y) = x @ strip_block_comments y"
proof (induction x rule: strip_block_comments.induct)
  case 1
  then show ?case by simp
next
  case (2 c)
  then show ?case
    by (cases y) auto
next
  case (3 c d s)
  then have n: "\<not> (c = CHR ''/'' \<and> d = CHR ''*'')" and m: "\<not> contains ''/*'' (d # s)"
    by auto
  from "3.prems" have "d # s = [] \<or> last (d # s) \<noteq> CHR ''/'' \<or> y = [] \<or> hd y \<noteq> CHR ''*''"
    by simp
  with "3.IH"(3) [OF n m] have "strip_block_comments ((d # s) @ y) = (d # s) @ strip_block_comments y"
    by blast
  with n show ?case
    by auto
qed

lemma find_close_body: "\<not> contains ''*/'' c \<Longrightarrow> find_close (c @ ''*/'' @ r) = Some r"
  by (induction c rule: find_close.induct) auto

lemma block_comment_removed:
  assumes "\<not> contains ''--'' a" "\<not> contains ''/*'' a" "\<not> contains ''--'' c" "\<not> contains ''*/'' c"
  shows "strip_block_comments (strip_line_comments (a @ ''/*'' @ c @ ''*/'' @ b)) =
         a @ strip_block_comments (strip_line_comments b)"
proof -
  have "\<not> contains ''--'' (a @ ''/*'' @ c @ ''*/'')"
    using assms(1,3) by (simp add: contains_pair_append)
  then have "strip_line_comments ((a @ ''/*'' @ c @ ''*/'') @ b) =
             (a @ ''/*'' @ c @ ''*/'') @ strip_line_comments b"
    by (rule strip_line_free) simp
  then have l: "strip_line_comments (a @ ''/*'' @ c @ ''*/'' @ b) =
             a @ ''/*'' @ c @ ''*/'' @ strip_line_comments b"
    by simp
  have "strip_block_comments (a @ (''/*'' @ c @ ''*/'' @ strip_line_comments b)) =
        a @ strip_block_comments (''/*'' @ c @ ''*/'' @ strip_line_comments b)"
    using assms(2) by (rule strip_block_free) simp
  also have "strip_block_comments (''/*'' @ c @ ''*/'' @ strip_line_comments b) =
             strip_block_comments (strip_line_comments b)"
    using find_close_body [OF assms(4), of "strip_line_comments b"] by simp
  finally show ?thesis
    using l by simp
qed

lemma validate_query_cong:
  "strip_block_comments (strip_line_comments p) = strip_block_comments (strip_line_comments q) \<Longrightarrow>
   validate_query p = validate_query q"
  by (simp add: validate_query_def query_upper_def)

lemma find_close_None: "(find_close s = None) = (\<not> contains ''*/'' s)"
  by (induction s rule: find_close.induct) auto

lemma scan_block_close: "find_close s = Some r \<Longrightarrow> spec_scan In_block s = spec_scan Outside r"
  by (induction s rule: find_close.induct) (auto split: if_splits)

lemma contains_Cons: "k \<noteq> [] \<Longrightarrow> contains k s \<Longrightarrow> contains k (c # s)"
  by simp

lemma find_close_contains: "find_close s = Some r \<Longrightarrow> contains ''--'' r \<Longrightarrow> contains ''--'' s"
  by (induction s rule: find_close.induct) (auto split: if_splits)

lemma strip_line_id: "\<not> contains ''--'' q \<Longrightarrow> strip_line_comments q = q"
  using strip_line_free [of q "[]"] by simp

lemma block_scan_agree:
  "\<not> contains ''--'' q \<Longrightarrow> strip_block_comments q = spec_scan Outside q"
proof (induction q rule: strip_block_comments.induct)
  case 1
  then show ?case by simp
next
  case (2 c)
  then show ?case by simp
next
  case (3 c d s)
  then have n: "\<not> (c = CHR ''-'' \<and> d = CHR ''-'')" and m: "\<not> contains ''--'' (d # s)"
    by auto
  show ?case
  proof (cases "c = CHR ''/'' \<and> d = CHR ''*''")
    case True
    show ?thesis
    proof (cases "find_close s")
      case None
      then have "\<not> contains ''*/'' s"
        by (simp add: find_close_None)
      then show ?thesis
        using True None "3.IH"(1) [OF True None m] by simp
    next
      case (Some r)
      then have c: "contains ''*/'' s"
        using find_close_None [of s] by simp
      have "\<not> contains ''--'' r"
        using Some m find_close_contains [of s r] by auto
      then have "strip_block_comments r = spec_scan Outside r"
        using "3.IH"(2) [OF True Some] by simp
      then show ?thesis
        using True Some c scan_block_close [OF Some] by simp
    qed
  next
    case False
    then show ?thesis
      using n "3.IH"(3) [OF False m] by auto
  qed
qed

lemma comments_agree_without_dashes:
  "\<not> contains ''--'' q \<Longrightarrow> strip_block_comments (strip_line_comments q) = spec_strip_comments q"
  by (simp add: strip_line_id block_scan_agree spec_strip_comments_def)

lemma scan_Outside_Cons:
  "c \<noteq> CHR ''-'' \<Longrightarrow> c \<noteq> CHR ''/'' \<Longrightarrow> spec_scan Outside (c # s) = c # spec_scan Outside s"
  by (cases s) auto

lemma scan_line_rest:
  "spec_scan In_line s = spec_scan Outside (dropWhile (\<lambda>x. x \<noteq> CHR 0x0A) s)"
  by (induction s) (auto simp: scan_Outside_Cons)

lemma contains_dropWhile: "contains ''/*'' (dropWhile P s) \<Longrightarrow> contains ''/*'' s"
  by (induction s) (auto split: if_splits)

lemma strip_line_hd:
  "strip_line_comments u \<noteq> [] \<Longrightarrow> hd (strip_line_comments u) = CHR ''*'' \<Longrightarrow>
   u \<noteq> [] \<and> hd u = CHR ''*''"
proof (induction u rule: strip_line_comments.induct)
  case 1
  then show ?case by simp
next
  case (2 c)
  then show ?case by simp
next
  case (3 c d s)
  show ?case
  proof (cases "c = CHR ''-'' \<and> d = CHR ''-''")
    case True
    define t where "t = dropWhile (\<lambda>x. x \<noteq> CHR 0x0A) s"
    from True "3.prems" have p: "strip_line_comments t \<noteq> []" "hd (strip_line_comments t) = CHR ''*''"
      by (simp_all add: t_def)
    then have "t \<noteq> [] \<and> hd t = CHR ''*''"
      using "3.IH"(1) [OF True] by (simp add: t_def)
    moreover have "t \<noteq> [] \<Longrightarrow> hd t = CHR 0x0A"
      unfolding t_def using hd_dropWhile [of "\<lambda>x. x \<noteq> CHR 0x0A" s] by simp
    ultimately show ?thesis
      by simp
  next
    case False
    with "3.prems" show ?thesis
      by auto
  qed
qed

lemma strip_line_no_block:
  "\<not> contains ''/*'' q \<Longrightarrow> \<not> contains ''/*'' (strip_line_comments q)"
proof (induction q rule: strip_line_comments.induct)
  case 1
  then show ?case by simp
next
  case (2 c)
  then show ?case by simp
next
  case (3 c d s)
  show ?case
  proof (cases "c = CHR ''-'' \<and> d = CHR ''-''")
    case True
    have "\<not> contains ''/*'' (dropWhile (\<lambda>x. x \<noteq> CHR 0x0A) s)"
      using "3.prems" contains_dropWhile [of "\<lambda>x. x \<noteq> CHR 0x0A" s] by auto
    then show ?thesis
      using True "3.IH"(1) [OF True] by simp
  next
    case False
    from "3.prems" have m: "\<not> contains ''/*'' (d # s)" and n: "\<not> (c = CHR ''/'' \<and> d = CHR ''*'')"
      by auto
    have i: "\<not> contains ''/*'' (strip_line_comments (d # s))"
      using "3.IH"(2) [OF False m] .
    have "\<not> startswith (c # strip_line_comments (d # s)) ''/*''"
    proof
      assume a: "startswith (c # strip_line_comments (d # s)) ''/*''"
      then have c: "c = CHR ''/''" and ne: "strip_line_comments (d # s) \<noteq> []"
        and h: "hd (strip_line_comments (d # s)) = CHR ''*''"
        by (cases "strip_line_comments (d # s)"; simp)+
      from strip_line_hd [OF ne h] have "d = CHR ''*''"
        by simp
      with c n show False
        by simp
    qed
    with i False show ?thesis
      by auto
  qed
qed

lemma strip_block_id: "\<not> contains ''/*'' q \<Longrightarrow> strip_block_comments q = q"
  using strip_block_free [of q "[]"] by simp

lemma line_scan_agree:
  "\<not> contains ''/*'' q \<Longrightarrow> strip_line_comments q = spec_scan Outside q"
proof (induction q rule: strip_line_comments.induct)
  case 1
  then show ?case by simp
next
  case (2 c)
  then show ?case by simp
next
  case (3 c d s)
  show ?case
  proof (cases "c = CHR ''-'' \<and> d = CHR ''-''")
    case True
    have "\<not> contains ''/*'' (dropWhile (\<lambda>x. x \<noteq> CHR 0x0A) s)"
      using "3.prems" contains_dropWhile [of "\<lambda>x. x \<noteq> CHR 0x0A" s] by auto
    then show ?thesis
      using True "3.IH"(1) [OF True] by (simp add: scan_line_rest)
  next
    case False
    from "3.prems" have m: "\<not> contains ''/*'' (d # s)" and n: "\<not> (c = CHR ''/'' \<and> d = CHR ''*'')"
      by auto
    then show ?thesis
      using False "3.IH"(2) [OF False m] by auto
  qed
qed

lemma comments_agree_without_block:
  "\<not> contains ''/*'' q \<Longrightarrow> strip_block_comments (strip_line_comments q) = spec_strip_comments q"
proof -
  assume h: "\<not> contains ''/*'' q"
  have "strip_block_comments (strip_line_comments q) = strip_line_comments q"
    using strip_line_no_block [OF h] by (rule strip_block_id)
  then show ?thesis
    using line_scan_agree [OF h] by (simp add: spec_strip_comments_def)
qed

section \<open>The allow-list\<close>

text \<open>
  Where the comment removal of the program gives the text without comments that the
  specification describes, the text that \<open>validate_query\<close> scans for forbidden patterns,
  and the trimmed text whose start it checks, are both the normal form of the
  specification, and a query whose normal form starts with an allowed keyword and
  matches no forbidden pattern is allowed.  This covers every text that does not contain
  both a \<open>--\<close> and a \<open>/*\<close>.
\<close>

lemma query_upper_normalized:
  "strip_block_comments (strip_line_comments q) = spec_strip_comments q \<Longrightarrow>
   query_upper q = normalized q \<and> strip (query_upper q) = normalized q"
  by (simp add: query_upper_def normalized_def strip_collapse strip_upper strip_join_split)

lemma normalized_stripped: "strip (normalized q) = normalized q"
  by (simp add: normalized_def strip_collapse strip_upper strip_join_split)

lemma not_paren_keyword:
  "list_ex (\<lambda>keyword. startswith s keyword) allowed_starts \<Longrightarrow> \<not> startswith s ''(''"
  by (cases s) (auto simp: allowed_starts_def)

lemma gate_allows_normal_form:
  "strip_block_comments (strip_line_comments q) = spec_strip_comments q \<Longrightarrow>
   list_ex (\<lambda>keyword. startswith (normalized q) keyword) allowed_starts \<Longrightarrow>
   \<not> list_ex (\<lambda>pattern. re_search pattern (normalized q)) forbidden_patterns \<Longrightarrow>
   validate_query q"
  using not_paren_keyword [of "normalized q"]
  by (simp add: validate_query_def Let_def query_upper_normalized normalized_stripped)

lemma gate_allows_one_kind_of_comment:
  "\<not> contains ''--'' q \<or> \<not> contains ''/*'' q \<Longrightarrow>
   list_ex (\<lambda>keyword. startswith (normalized q) keyword) allowed_starts \<Longrightarrow>
   \<not> list_ex (\<lambda>pattern. re_search pattern (normalized q)) forbidden_patterns \<Longrightarrow>
   validate_query q"
  using comments_agree_without_dashes [of q] comments_agree_without_block [of q]
        gate_allows_normal_form [of q]
  by blast

text \<open>
  Claim C2 does not hold of the code.  The normal form of \<open>/* a -- b */ SELECT 1\<close> is
  \<open>SELECT 1\<close>: it starts with an allowed keyword and matches no forbidden pattern.  The
  program removes line comments first, and that pass takes the \<open>--\<close> inside the block
  comment for a line comment and deletes the rest of the line, the closing \<open>*/\<close> and the
  query included.  What is left is \<open>/* a\<close>, which starts with no allowed keyword, and the
  query is rejected.  Without the \<open>--\<close> in the comment the query is allowed.
\<close>

theorem query_behind_comment_is_rejected:
  "normalized ''/* a -- b */ SELECT 1'' = ''SELECT 1'' \<and>
   list_ex (\<lambda>keyword. startswith (normalized ''/* a -- b */ SELECT 1'') keyword) allowed_starts \<and>
   \<not> list_ex (\<lambda>pattern. re_search pattern (normalized ''/* a -- b */ SELECT 1''))
       forbidden_patterns \<and>
   strip_line_comments ''/* a -- b */ SELECT 1'' = ''/* a '' \<and>
   query_upper ''/* a -- b */ SELECT 1'' = ''/* A'' \<and>
   \<not> validate_query ''/* a -- b */ SELECT 1'' \<and>
   validate_query ''/* a b */ SELECT 1''"
  by code_simp

section \<open>Forbidden text inside comments\<close>

text \<open>
  Two cases in which the text of a comment has no part in the verdict: the text of a line
  comment up to its line feed, and the text of a block comment that the first pass leaves
  whole and that follows text without comment markers.
\<close>

lemma line_comment_body_ignored:
  "CHR 0x0A \<notin> set c \<Longrightarrow>
   validate_query (a @ ''--'' @ c @ b) = validate_query (a @ ''--'' @ b)"
proof -
  assume "CHR 0x0A \<notin> set c"
  then have "strip_line_comments (a @ ''--'' @ c @ b) = strip_line_comments (a @ ''--'' @ b)"
    by (rule strip_line_comment_body)
  then have "strip_block_comments (strip_line_comments (a @ ''--'' @ c @ b)) =
             strip_block_comments (strip_line_comments (a @ ''--'' @ b))"
    by (rule arg_cong)
  then show ?thesis
    by (rule validate_query_cong)
qed

lemma block_comment_body_ignored:
  assumes "\<not> contains ''--'' a" "\<not> contains ''/*'' a" "\<not> contains ''--'' c" "\<not> contains ''*/'' c"
  shows "validate_query (a @ ''/*'' @ c @ ''*/'' @ b) = validate_query (a @ ''/**/'' @ b)"
proof -
  have e: "\<not> contains ''--'' []" "\<not> contains ''*/'' []"
    by simp_all
  have "strip_block_comments (strip_line_comments (a @ ''/*'' @ c @ ''*/'' @ b)) =
         a @ strip_block_comments (strip_line_comments b)"
    using assms by (rule block_comment_removed)
  moreover have "strip_block_comments (strip_line_comments (a @ ''/*'' @ [] @ ''*/'' @ b)) =
         a @ strip_block_comments (strip_line_comments b)"
    using assms(1,2) e by (rule block_comment_removed)
  ultimately show ?thesis
    by (intro validate_query_cong) simp
qed

text \<open>
  Claim C4 does not hold of the code.  In \<open>SELECT 1 /* DROP TABLE x -- */\<close> the words
  \<open>DROP TABLE\<close> occur only inside the block comment; without its comments the text is
  \<open>SELECT 1\<close>.  The program removes line comments first, and that pass deletes
  everything from the \<open>--\<close> inside the block comment to the end of the line, the closing
  \<open>*/\<close> included.  The opening \<open>/*\<close> is then never closed, the second pass removes
  nothing, the words \<open>DROP TABLE\<close> reach the patterns, and the query is rejected.  The
  same query without the \<open>--\<close> in its comment, and the query of the specification with
  the words in a line comment, are allowed.
\<close>

theorem block_comment_with_dashes_is_rejected:
  "spec_strip_comments ''SELECT 1 /* DROP TABLE x -- */'' = ''SELECT 1 '' \<and>
   normalized ''SELECT 1 /* DROP TABLE x -- */'' = ''SELECT 1'' \<and>
   strip_line_comments ''SELECT 1 /* DROP TABLE x -- */'' = ''SELECT 1 /* DROP TABLE x '' \<and>
   strip_block_comments ''SELECT 1 /* DROP TABLE x '' = ''SELECT 1 /* DROP TABLE x '' \<and>
   query_upper ''SELECT 1 /* DROP TABLE x -- */'' = ''SELECT 1 /* DROP TABLE X'' \<and>
   re_search [Bnd, Lit ''DROP'', Ws1, Alt [''TABLE'', ''VIEW'', ''SCHEMA'', ''DATABASE''], Bnd]
     (query_upper ''SELECT 1 /* DROP TABLE x -- */'') \<and>
   \<not> validate_query ''SELECT 1 /* DROP TABLE x -- */'' \<and>
   validate_query ''SELECT 1 /* DROP TABLE x */'' \<and>
   validate_query ''SELECT 1 -- DROP TABLE x''"
  by code_simp

end
